theory Spec2Isabelle
  imports Main
begin

section \<open>Static security analysis of uploaded Python and SQL files (report.py)\<close>

text \<open>
  The development embeds \<^verbatim>\<open>analyze_python_security\<close>, \<^verbatim>\<open>analyze_sql_security\<close> and
  \<^verbatim>\<open>generate_security_report\<close> of \<^verbatim>\<open>src/report.py\<close>.

  Python's \<^verbatim>\<open>str\<close> is modelled by \<open>string\<close>, that is text over the first 256 code
  points; upper and lower case are the ASCII ones, every other character is left as it
  is, which makes no difference to a search for the ASCII words the analysers look for. The file system and the two parsers the code
  calls (\<^verbatim>\<open>ast.parse\<close>, \<^verbatim>\<open>sqlparse.parse\<close>) are not code of the repository: they are
  parameters of the model, each returning either the exception it raised or its result.
\<close>

subsection \<open>Strings\<close>

text \<open>Python's \<^verbatim>\<open>s.startswith(p)\<close> and \<^verbatim>\<open>sub in s\<close>.\<close>

fun startswith :: "string \<Rightarrow> string \<Rightarrow> bool" where
  "startswith s [] = True"
| "startswith [] (p # ps) = False"
| "startswith (c # cs) (p # ps) = (c = p \<and> startswith cs ps)"

fun contains :: "string \<Rightarrow> string \<Rightarrow> bool" where
  "contains sub [] = (sub = [])"
| "contains sub (c # cs) = (startswith (c # cs) sub \<or> contains sub cs)"

definition ascii_lowercase :: string where
  "ascii_lowercase = ''abcdefghijklmnopqrstuvwxyz''"

definition ascii_uppercase :: string where
  "ascii_uppercase = ''ABCDEFGHIJKLMNOPQRSTUVWXYZ''"

definition upper_char :: "char \<Rightarrow> char" where
  "upper_char c = (case map_of (zip ascii_lowercase ascii_uppercase) c of
                     Some u \<Rightarrow> u | None \<Rightarrow> c)"

definition lower_char :: "char \<Rightarrow> char" where
  "lower_char c = (case map_of (zip ascii_uppercase ascii_lowercase) c of
                     Some l \<Rightarrow> l | None \<Rightarrow> c)"

text \<open>\<^verbatim>\<open>content.upper()\<close>.\<close>

definition upper :: "string \<Rightarrow> string" where
  "upper s = map upper_char s"

text \<open>\<^verbatim>\<open>str(n)\<close> for a line number, which is never negative.\<close>

definition digit_char :: "nat \<Rightarrow> char" where
  "digit_char d = ''0123456789'' ! d"

function str_nat :: "nat \<Rightarrow> string" where
  "str_nat n = (if n < 10 then [digit_char n] else str_nat (n div 10) @ [digit_char (n mod 10)])"
  by pat_completeness auto
termination
  by (relation "measure (\<lambda>n. n)") auto

declare str_nat.simps [simp del]

subsection \<open>Regular expressions\<close>

text \<open>
  The fragment of Python's \<^verbatim>\<open>re\<close> syntax the two patterns of the analysers use:
  a literal character, \<^verbatim>\<open>.\<close>, \<^verbatim>\<open>\s\<close>, \<^verbatim>\<open>[...]\<close>, \<^verbatim>\<open>[^...]\<close>, concatenation,
  \<^verbatim>\<open>|\<close>, \<^verbatim>\<open>*\<close> and \<^verbatim>\<open>+\<close>. \<open>Eps\<close> is the empty pattern and \<open>Fail\<close> the pattern that
  matches nothing; the two arise when a pattern has consumed a character.
\<close>

datatype regex =
    Lit char
  | Dot
  | Space
  | OneOf "char list"
  | NoneOf "char list"
  | Seq regex regex
  | Alt regex regex
  | Star regex
  | Plus regex
  | Eps
  | Fail

text \<open>
  The characters \<^verbatim>\<open>\s\<close> matches in a \<^verbatim>\<open>str\<close> pattern, among the first 256 code points:
  tab, line feed, vertical tab, form feed, carriage return, the four separators
  U+001C to U+001F, space, U+0085 and U+00A0.
\<close>

definition whitespace :: "char list" where
  "whitespace = [CHR 0x09, CHR 0x0A, CHR 0x0B, CHR 0x0C, CHR 0x0D,
                 CHR 0x1C, CHR 0x1D, CHR 0x1E, CHR 0x1F, CHR 0x20, CHR 0x85, CHR 0xA0]"

text \<open>Whether two characters are the same, up to case when \<^verbatim>\<open>re.I\<close> is set.\<close>

definition same_char :: "bool \<Rightarrow> char \<Rightarrow> char \<Rightarrow> bool" where
  "same_char ignorecase a b = (if ignorecase then lower_char a = lower_char b else a = b)"

fun nullable :: "regex \<Rightarrow> bool" where
  "nullable (Lit d) = False"
| "nullable Dot = False"
| "nullable Space = False"
| "nullable (OneOf ds) = False"
| "nullable (NoneOf ds) = False"
| "nullable (Seq r s) = (nullable r \<and> nullable s)"
| "nullable (Alt r s) = (nullable r \<or> nullable s)"
| "nullable (Star r) = True"
| "nullable (Plus r) = nullable r"
| "nullable Eps = True"
| "nullable Fail = False"

text \<open>What is left of a pattern once it has matched the character \<open>c\<close>.\<close>

fun deriv :: "bool \<Rightarrow> char \<Rightarrow> regex \<Rightarrow> regex" where
  "deriv i c (Lit d) = (if same_char i c d then Eps else Fail)"
| "deriv i c Dot = (if c = CHR 0x0A then Fail else Eps)"
| "deriv i c Space = (if c \<in> set whitespace then Eps else Fail)"
| "deriv i c (OneOf ds) = (if list_ex (same_char i c) ds then Eps else Fail)"
| "deriv i c (NoneOf ds) = (if list_ex (same_char i c) ds then Fail else Eps)"
| "deriv i c (Seq r s) =
     (if nullable r then Alt (Seq (deriv i c r) s) (deriv i c s) else Seq (deriv i c r) s)"
| "deriv i c (Alt r s) = Alt (deriv i c r) (deriv i c s)"
| "deriv i c (Star r) = Seq (deriv i c r) (Star r)"
| "deriv i c (Plus r) = Seq (deriv i c r) (Star r)"
| "deriv i c Eps = Fail"
| "deriv i c Fail = Fail"

text \<open>Whether the whole of \<open>s\<close> matches the pattern.\<close>

fun fullmatch :: "bool \<Rightarrow> regex \<Rightarrow> string \<Rightarrow> bool" where
  "fullmatch i r [] = nullable r"
| "fullmatch i r (c # cs) = fullmatch i (deriv i c r) cs"

text \<open>
  \<^verbatim>\<open>re.search(pattern, s, flags)\<close> used as a condition: whether some part of \<open>s\<close> matches.
  \<open>NoneOf []\<close> is any character, the line feed too.
\<close>

definition re_search :: "bool \<Rightarrow> regex \<Rightarrow> string \<Rightarrow> bool" where
  "re_search i r s = fullmatch i (Seq (Star (NoneOf [])) (Seq r (Star (NoneOf [])))) s"

text \<open>A literal word, and the alternation of several patterns.\<close>

fun word :: "string \<Rightarrow> regex" where
  "word [] = Eps"
| "word [c] = Lit c"
| "word (c # cs) = Seq (Lit c) (word cs)"

fun alts :: "regex list \<Rightarrow> regex" where
  "alts [] = Fail"
| "alts [r] = r"
| "alts (r # rs) = Alt r (alts rs)"

text \<open>\<^verbatim>\<open>(password|passwd|secret|key)\s*=\s*[\'"][^\'"]+[\'"]\<close>\<close>

definition credentials_pattern :: regex where
  "credentials_pattern =
     Seq (alts [word ''password'', word ''passwd'', word ''secret'', word ''key''])
    (Seq (Star Space)
    (Seq (Lit CHR ''='')
    (Seq (Star Space)
    (Seq (OneOf [CHR 0x27, CHR 0x22])
    (Seq (Plus (NoneOf [CHR 0x27, CHR 0x22]))
         (OneOf [CHR 0x27, CHR 0x22]))))))"

text \<open>\<^verbatim>\<open>(SELECT|INSERT|UPDATE|DELETE).*(\+|\|\|).*(input|argv|getenv)\<close>\<close>

definition sql_injection_pattern :: regex where
  "sql_injection_pattern =
     Seq (alts [word ''SELECT'', word ''INSERT'', word ''UPDATE'', word ''DELETE''])
    (Seq (Star Dot)
    (Seq (alts [Lit CHR ''+'', word ''||''])
    (Seq (Star Dot)
         (alts [word ''input'', word ''argv'', word ''getenv'']))))"

subsection \<open>Exceptions, files and the report\<close>

text \<open>
  An exception that is an instance of \<^verbatim>\<open>Exception\<close>, with the text \<^verbatim>\<open>str(e)\<close> gives.
\<close>

datatype exn = Exception string

text \<open>
  \<^verbatim>\<open>with open(filepath, 'r', encoding='utf-8') as f: content = f.read()\<close> either raises
  (no such file, no permission, bytes that are not UTF-8) or gives the text of the file.
\<close>

type_synonym filesystem = "string \<Rightarrow> exn + string"

text \<open>
  The dictionary \<^verbatim>\<open>security_report\<close> of the two analysers: it is created with the four
  keys below, and the key \<^verbatim>\<open>'error'\<close> is added in the exception handler only.
\<close>

record security_report =
  security_issues :: "string list"
  vulnerability_count :: int
  risk_level :: string
  security_score :: int
  error :: "string option"

definition new_report :: security_report where
  "new_report = \<lparr> security_issues = [], vulnerability_count = 0,
                   risk_level = ''Low'', security_score = 100, error = None \<rparr>"

text \<open>
  The pair of statements every check ends with:
  \<^verbatim>\<open>security_report['security_issues'].append(label)\<close> and
  \<^verbatim>\<open>security_report['security_score'] -= penalty\<close>.
\<close>

definition add_issue :: "string \<Rightarrow> int \<Rightarrow> security_report \<Rightarrow> security_report" where
  "add_issue label penalty r =
     r\<lparr> security_issues := security_issues r @ [label],
        security_score := security_score r - penalty \<rparr>"

text \<open>The block under \<^verbatim>\<open># Update risk level based on score\<close>, the same in both analysers.\<close>

definition update_risk_level :: "security_report \<Rightarrow> security_report" where
  "update_risk_level r =
     (let r = r\<lparr> vulnerability_count := int (length (security_issues r)) \<rparr>
      in if security_score r < 50 then r\<lparr> risk_level := ''High'' \<rparr>
         else if security_score r < 80 then r\<lparr> risk_level := ''Medium'' \<rparr>
         else r)"

text \<open>The handler \<^verbatim>\<open>except Exception as e\<close> of both analysers.\<close>

definition analysis_failed :: "exn \<Rightarrow> security_report \<Rightarrow> security_report" where
  "analysis_failed e r =
     (case e of Exception msg \<Rightarrow> r\<lparr> error := Some (''Security analysis failed: '' @ msg) \<rparr>)"

subsection \<open>The Python analyser\<close>

text \<open>
  A syntax tree as \<^verbatim>\<open>ast.walk\<close> and the checks of the analyser see it: \<open>Name id\<close> is
  \<^verbatim>\<open>ast.Name\<close>; \<open>Call func rest lineno\<close> is \<^verbatim>\<open>ast.Call\<close> with its callee, its other
  child nodes (arguments, then keywords) and its line; \<open>Node children\<close> is a node of any
  other class. The context node below an \<^verbatim>\<open>ast.Name\<close> is a leaf of another class and is
  left out.
\<close>

datatype ast = Name string | Call ast "ast list" nat | Node "ast list"

fun iter_child_nodes :: "ast \<Rightarrow> ast list" where
  "iter_child_nodes (Name ident) = []"
| "iter_child_nodes (Call func rest lineno) = func # rest"
| "iter_child_nodes (Node children) = children"

fun node_count :: "ast \<Rightarrow> nat" where
  "node_count (Name ident) = 1"
| "node_count (Call func rest lineno) = Suc (node_count func + sum_list (map node_count rest))"
| "node_count (Node children) = Suc (sum_list (map node_count children))"

text \<open>
  \<^verbatim>\<open>ast.walk\<close>: the nodes of the tree, breadth first. The argument is the queue
  \<^verbatim>\<open>todo\<close>; each round pops its first node, appends that node's children and yields it.
\<close>

function walk_queue :: "ast list \<Rightarrow> ast list" where
  "walk_queue [] = []"
| "walk_queue (node # todo) = node # walk_queue (todo @ iter_child_nodes node)"
  by pat_completeness auto
termination
proof (relation "measure (\<lambda>todo. sum_list (map node_count todo))")
  show "wf (measure (\<lambda>todo. sum_list (map node_count todo)))"
    by simp
next
  fix node :: ast and todo :: "ast list"
  have "sum_list (map node_count (iter_child_nodes node)) < node_count node"
    by (cases node) simp_all
  then show "(todo @ iter_child_nodes node, node # todo)
               \<in> measure (\<lambda>todo. sum_list (map node_count todo))"
    by simp
qed

definition walk :: "ast \<Rightarrow> ast list" where
  "walk tree = walk_queue [tree]"

definition dangerous_funcs :: "string list" where
  "dangerous_funcs = [''eval'', ''exec'', ''pickle.loads'', ''os.system'', ''subprocess.call'']"

text \<open>
  \<^verbatim>\<open>for func in dangerous_funcs: if func in content: ...\<close> The list is an argument so that
  the loop can be followed; the analyser calls it with \<open>dangerous_funcs\<close>.
\<close>

fun check_dangerous_funcs :: "string \<Rightarrow> string list \<Rightarrow> security_report \<Rightarrow> security_report" where
  "check_dangerous_funcs content [] r = r"
| "check_dangerous_funcs content (func # funcs) r =
     check_dangerous_funcs content funcs
       (if contains func content
        then add_issue (''Dangerous function used: '' @ func) 10 r else r)"

definition check_command_injection :: "string \<Rightarrow> security_report \<Rightarrow> security_report" where
  "check_command_injection content r =
     (if list_ex (\<lambda>x. contains (''system('' @ x) content) [''input'', ''argv'', ''getenv'']
      then add_issue ''Potential command injection vulnerability'' 15 r else r)"

definition check_hardcoded_credentials :: "string \<Rightarrow> security_report \<Rightarrow> security_report" where
  "check_hardcoded_credentials content r =
     (if re_search False credentials_pattern content
      then add_issue ''Hardcoded credentials detected'' 20 r else r)"

text \<open>The three checks on the text, in the order of the source.\<close>

definition python_text_checks :: "string \<Rightarrow> security_report \<Rightarrow> security_report" where
  "python_text_checks content r =
     check_hardcoded_credentials content
       (check_command_injection content
         (check_dangerous_funcs content dangerous_funcs r))"

text \<open>The body of \<^verbatim>\<open>for node in ast.walk(tree)\<close>, then the loop.\<close>

fun check_node :: "ast \<Rightarrow> security_report \<Rightarrow> security_report" where
  "check_node (Call (Name ident) rest lineno) r =
     (if ident \<in> set dangerous_funcs
      then add_issue (''Dangerous function call: '' @ ident @ '' at line '' @ str_nat lineno) 10 r
      else r)"
| "check_node node r = r"

fun check_nodes :: "ast list \<Rightarrow> security_report \<Rightarrow> security_report" where
  "check_nodes [] r = r"
| "check_nodes (node # nodes) r = check_nodes nodes (check_node node r)"

text \<open>
  The inner \<^verbatim>\<open>try\<close>: \<^verbatim>\<open>ast.parse\<close> raises before anything is appended, and the bare
  \<^verbatim>\<open>except: pass\<close> drops whatever it raised.
\<close>

definition check_ast :: "(string \<Rightarrow> exn + ast) \<Rightarrow> string \<Rightarrow> security_report \<Rightarrow> security_report" where
  "check_ast ast_parse content r =
     (case ast_parse content of
        Inl e \<Rightarrow> r
      | Inr tree \<Rightarrow> check_nodes (walk tree) r)"

definition analyze_python_security ::
  "filesystem \<Rightarrow> (string \<Rightarrow> exn + ast) \<Rightarrow> string \<Rightarrow> security_report" where
  "analyze_python_security fs ast_parse filepath =
     (case fs filepath of
        Inl e \<Rightarrow> analysis_failed e new_report
      | Inr content \<Rightarrow>
          update_risk_level (check_ast ast_parse content (python_text_checks content new_report)))"

subsection \<open>The SQL analyser\<close>

text \<open>A statement of \<^verbatim>\<open>sqlparse\<close>, as far as the analyser looks at it: its type.\<close>

datatype statement = Statement (get_type: string)

definition check_sql_injection :: "string \<Rightarrow> security_report \<Rightarrow> security_report" where
  "check_sql_injection content r =
     (if re_search True sql_injection_pattern content
      then add_issue ''Potential SQL injection vulnerability'' 30 r else r)"

definition check_dynamic_sql :: "string \<Rightarrow> security_report \<Rightarrow> security_report" where
  "check_dynamic_sql content r =
     (if contains ''EXEC('' (upper content) \<or> contains ''EXECUTE IMMEDIATE'' (upper content)
      then add_issue ''Dynamic SQL execution detected'' 20 r else r)"

definition sensitive_ops :: "string list" where
  "sensitive_ops = [''DROP TABLE'', ''TRUNCATE TABLE'', ''GRANT ALL'', ''ALTER USER'']"

fun check_sensitive_ops :: "string \<Rightarrow> string list \<Rightarrow> security_report \<Rightarrow> security_report" where
  "check_sensitive_ops content [] r = r"
| "check_sensitive_ops content (op # ops) r =
     check_sensitive_ops content ops
       (if contains op (upper content)
        then add_issue (''Sensitive operation: '' @ op) 15 r else r)"

definition sql_text_checks :: "string \<Rightarrow> security_report \<Rightarrow> security_report" where
  "sql_text_checks content r =
     check_sensitive_ops content sensitive_ops
       (check_dynamic_sql content
         (check_sql_injection content r))"

fun check_statements :: "statement list \<Rightarrow> security_report \<Rightarrow> security_report" where
  "check_statements [] r = r"
| "check_statements (stmt # stmts) r =
     check_statements stmts
       (if get_type stmt = ''UNKNOWN''
        then add_issue ''Potentially malformed SQL statement'' 10 r else r)"

definition check_sqlparse ::
  "(string \<Rightarrow> exn + statement list) \<Rightarrow> string \<Rightarrow> security_report \<Rightarrow> security_report" where
  "check_sqlparse sqlparse_parse content r =
     (case sqlparse_parse content of
        Inl e \<Rightarrow> r
      | Inr statements \<Rightarrow> check_statements statements r)"

definition analyze_sql_security ::
  "filesystem \<Rightarrow> (string \<Rightarrow> exn + statement list) \<Rightarrow> string \<Rightarrow> security_report" where
  "analyze_sql_security fs sqlparse_parse filepath =
     (case fs filepath of
        Inl e \<Rightarrow> analysis_failed e new_report
      | Inr content \<Rightarrow>
          update_risk_level
            (check_sqlparse sqlparse_parse content (sql_text_checks content new_report)))"

subsection \<open>The entry point\<close>

text \<open>
  \<^verbatim>\<open>generate_security_report\<close> returns a dictionary of one of two shapes, so its result is
  the dictionary itself: the keys with their values, in insertion order.
\<close>

datatype pyval = PyStr string | PyInt int | PyList "string list"

type_synonym pydict = "(string \<times> pyval) list"

text \<open>The dictionary an analyser returns.\<close>

definition report_dict :: "security_report \<Rightarrow> pydict" where
  "report_dict r =
     [(''security_issues'', PyList (security_issues r)),
      (''vulnerability_count'', PyInt (vulnerability_count r)),
      (''risk_level'', PyStr (risk_level r)),
      (''security_score'', PyInt (security_score r))]
     @ (case error r of None \<Rightarrow> [] | Some msg \<Rightarrow> [(''error'', PyStr msg)])"

definition generate_security_report ::
  "filesystem \<Rightarrow> (string \<Rightarrow> exn + ast) \<Rightarrow> (string \<Rightarrow> exn + statement list)
     \<Rightarrow> string \<Rightarrow> string \<Rightarrow> pydict" where
  "generate_security_report fs ast_parse sqlparse_parse filepath filetype =
     (if filetype = ''py'' then report_dict (analyze_python_security fs ast_parse filepath)
      else if filetype = ''sql'' then report_dict (analyze_sql_security fs sqlparse_parse filepath)
      else [(''error'', PyStr ''Unsupported file type for security analysis'')])"

subsection \<open>What the specification says, for comparison with the code\<close>

text \<open>
  The penalty the signature catalogue of the specification gives to a finding, read off
  its label: 10 for a dangerous function (both scanners), 15 for command injection, 20 for
  hardcoded credentials; for SQL 30 for injection, 20 for dynamic SQL, 15 for a sensitive
  operation and 10 for a malformed statement.
\<close>

definition penalty :: "string \<Rightarrow> int" where
  "penalty label =
     (if startswith label ''Dangerous function used: '' then 10
      else if label = ''Potential command injection vulnerability'' then 15
      else if label = ''Hardcoded credentials detected'' then 20
      else if startswith label ''Dangerous function call: '' then 10
      else if label = ''Potential SQL injection vulnerability'' then 30
      else if label = ''Dynamic SQL execution detected'' then 20
      else if startswith label ''Sensitive operation: '' then 15
      else if label = ''Potentially malformed SQL statement'' then 10
      else 0)"

text \<open>The score is 100 less the penalties of the findings listed.\<close>

definition balanced :: "security_report \<Rightarrow> bool" where
  "balanced r = (security_score r = 100 - sum_list (map penalty (security_issues r)))"

subsection \<open>Predicates the properties are stated with\<close>

text \<open>Two reports that differ in the list of issues and the score at most.\<close>

definition same_frame :: "security_report \<Rightarrow> security_report \<Rightarrow> bool" where
  "same_frame r r' =
     (risk_level r' = risk_level r \<and> error r' = error r
      \<and> vulnerability_count r' = vulnerability_count r)"

text \<open>
  A tree as Python's parser builds it: a name is an identifier, so it holds no dot.
\<close>

fun names_dotfree :: "ast \<Rightarrow> bool" where
  "names_dotfree (Name ident) = (CHR ''.'' \<notin> set ident)"
| "names_dotfree (Call func rest lineno) = (names_dotfree func \<and> list_all names_dotfree rest)"
| "names_dotfree (Node children) = list_all names_dotfree children"

text \<open>A call whose callee is a bare name listed in \<open>dangerous_funcs\<close>.\<close>

fun dangerous_call :: "ast \<Rightarrow> bool" where
  "dangerous_call (Call (Name ident) rest lineno) = (ident \<in> set dangerous_funcs)"
| "dangerous_call node = False"

text \<open>
  The second report lists the issues of the first, then further ones that all satisfy
  \<open>Q\<close>.
\<close>

definition adds :: "(string \<Rightarrow> bool) \<Rightarrow> security_report \<Rightarrow> security_report \<Rightarrow> bool" where
  "adds Q r r' = (\<exists>new. security_issues r' = security_issues r @ new \<and> list_all Q new)"

subsection \<open>Example inputs\<close>

text \<open>
  A Python file on which every check on the text fires, with a tree holding a call of
  \<^verbatim>\<open>eval\<close> and one of \<^verbatim>\<open>exec\<close>, and an SQL file on which every sensitive operation
  and the dynamic SQL check fire.
\<close>

definition noisy_python :: string where
  \<open>noisy_python = ''eval exec pickle.loads os.system subprocess.call system(input key="k"''\<close>

definition five_funcs :: string where
  "five_funcs = ''eval exec pickle.loads os.system subprocess.call''"

definition noisy_sql :: string where
  "noisy_sql = ''DROP TABLE t; TRUNCATE TABLE t; GRANT ALL; ALTER USER u; EXEC(x)''"

definition two_calls :: ast where
  "two_calls = Node [Node [Call (Name ''eval'') [] 1], Node [Call (Name ''exec'') [] 2]]"

text \<open>
  The examples of the specification: \<^verbatim>\<open>eval(x)\<close> on the third line of a file, with
  the tree of that file (a module, an expression statement, the call), and the same text
  in a comment, whose tree is \<open>Node []\<close>, a module without statements; an assignment of a
  literal to \<^verbatim>\<open>password\<close> and the same in upper case, with their trees (a module, an
  assignment, its target and its constant); the SQL statement that concatenates
  \<^verbatim>\<open>input()\<close>.
\<close>

definition eval_example :: string where
  "eval_example = [CHR 0x0A, CHR 0x0A] @ ''eval(x)'' @ [CHR 0x0A]"

definition comment_example :: string where
  "comment_example = [CHR 0x0A, CHR 0x0A] @ ''# eval(x)'' @ [CHR 0x0A]"

definition eval_tree :: ast where
  "eval_tree = Node [Node [Call (Name ''eval'') [Name ''x''] 3]]"

definition password_example :: string where
  \<open>password_example = ''password = "abc123"''\<close>

definition password_tree :: ast where
  "password_tree = Node [Node [Name ''password'', Node []]]"

definition upper_password_example :: string where
  \<open>upper_password_example = ''PASSWORD = "abc123"''\<close>

definition upper_password_tree :: ast where
  "upper_password_tree = Node [Node [Name ''PASSWORD'', Node []]]"

definition sql_example :: string where
  "sql_example = ''SELECT * FROM users WHERE id = '' @ [CHR 0x27] @ '' + input() ''"

text \<open>
  A file that does not parse, and a file that calls \<^verbatim>\<open>os.system\<close> through the module
  and \<^verbatim>\<open>exec\<close> by its bare name, with its tree.
\<close>

definition unparseable_example :: string where
  "unparseable_example = ''eval(x''"

definition os_system_example :: string where
  "os_system_example = ''import os'' @ [CHR 0x0A] @ ''os.system(cmd)'' @ [CHR 0x0A] @ ''exec(x)''"

definition os_system_tree :: ast where
  "os_system_tree =
     Node [Node [Node []],
           Node [Call (Node [Name ''os'']) [Name ''cmd''] 2],
           Node [Call (Name ''exec'') [Name ''x''] 3]]"

section \<open>Properties\<close>

subsection \<open>Penalties and the score\<close>

lemma penalty_used: "penalty (''Dangerous function used: '' @ f) = 10"
  by (simp add: penalty_def)

lemma penalty_call: "penalty (''Dangerous function call: '' @ f) = 10"
  by (simp add: penalty_def)

lemma penalty_sensitive: "penalty (''Sensitive operation: '' @ f) = 15"
  by (simp add: penalty_def)

lemma penalty_fixed:
  "penalty ''Potential command injection vulnerability'' = 15"
  "penalty ''Hardcoded credentials detected'' = 20"
  "penalty ''Potential SQL injection vulnerability'' = 30"
  "penalty ''Dynamic SQL execution detected'' = 20"
  "penalty ''Potentially malformed SQL statement'' = 10"
  by (simp_all add: penalty_def)

lemma balanced_new_report: "balanced new_report"
  by (simp add: balanced_def new_report_def)

lemma balanced_add_issue:
  "balanced r \<Longrightarrow> penalty label = n \<Longrightarrow> balanced (add_issue label n r)"
  by (simp add: balanced_def add_issue_def)

lemma balanced_if_add_issue:
  "balanced r \<Longrightarrow> penalty label = n \<Longrightarrow> balanced (if b then add_issue label n r else r)"
  by (simp add: balanced_add_issue)

lemma balanced_check_dangerous_funcs:
  "balanced r \<Longrightarrow> balanced (check_dangerous_funcs content funcs r)"
proof (induction funcs arbitrary: r)
  case Nil
  then show ?case by simp
next
  case (Cons func funcs)
  show ?case
    unfolding check_dangerous_funcs.simps
    by (rule Cons.IH, rule balanced_if_add_issue, rule Cons.prems, rule penalty_used)
qed

lemma balanced_python_text_checks:
  "balanced r \<Longrightarrow> balanced (python_text_checks content r)"
  by (simp add: python_text_checks_def check_hardcoded_credentials_def
      check_command_injection_def balanced_check_dangerous_funcs balanced_add_issue penalty_fixed)

lemma balanced_check_node: "balanced r \<Longrightarrow> balanced (check_node node r)"
proof (induction node r rule: check_node.induct)
  case (1 ident rest lineno r)
  show ?case
    unfolding check_node.simps
    by (rule balanced_if_add_issue, rule "1.prems", rule penalty_call)
qed simp_all

lemma balanced_check_nodes: "balanced r \<Longrightarrow> balanced (check_nodes nodes r)"
  by (induction nodes arbitrary: r) (simp_all add: balanced_check_node)

lemma balanced_check_ast: "balanced r \<Longrightarrow> balanced (check_ast ast_parse content r)"
  by (simp add: check_ast_def balanced_check_nodes split: sum.split)

lemma balanced_check_sensitive_ops:
  "balanced r \<Longrightarrow> balanced (check_sensitive_ops content ops r)"
proof (induction ops arbitrary: r)
  case Nil
  then show ?case by simp
next
  case (Cons op ops)
  show ?case
    unfolding check_sensitive_ops.simps
    by (rule Cons.IH, rule balanced_if_add_issue, rule Cons.prems, rule penalty_sensitive)
qed

lemma balanced_sql_text_checks: "balanced r \<Longrightarrow> balanced (sql_text_checks content r)"
  by (simp add: sql_text_checks_def check_dynamic_sql_def check_sql_injection_def
      balanced_check_sensitive_ops balanced_add_issue penalty_fixed)

lemma balanced_check_statements: "balanced r \<Longrightarrow> balanced (check_statements stmts r)"
  by (induction stmts arbitrary: r) (simp_all add: balanced_add_issue penalty_fixed)

lemma balanced_check_sqlparse:
  "balanced r \<Longrightarrow> balanced (check_sqlparse sqlparse_parse content r)"
  by (simp add: check_sqlparse_def balanced_check_statements split: sum.split)

lemma update_risk_level_fields:
  "security_issues (update_risk_level r) = security_issues r"
  "security_score (update_risk_level r) = security_score r"
  "error (update_risk_level r) = error r"
  "vulnerability_count (update_risk_level r) = int (length (security_issues r))"
  by (simp_all add: update_risk_level_def Let_def)

lemma analysis_failed_fields:
  "security_issues (analysis_failed e r) = security_issues r"
  "security_score (analysis_failed e r) = security_score r"
  "vulnerability_count (analysis_failed e r) = vulnerability_count r"
  "risk_level (analysis_failed e r) = risk_level r"
  by (simp_all add: analysis_failed_def split: exn.split)

lemma same_frame_refl: "same_frame r r"
  by (simp add: same_frame_def)

lemma same_frame_trans: "same_frame r r' \<Longrightarrow> same_frame r' r'' \<Longrightarrow> same_frame r r''"
  by (simp add: same_frame_def)

lemma same_frame_add_issue: "same_frame r (add_issue label n r)"
  by (simp add: same_frame_def add_issue_def)

lemma same_frame_check_dangerous_funcs: "same_frame r (check_dangerous_funcs content funcs r)"
proof (induction funcs arbitrary: r)
  case Nil
  show ?case by (simp add: same_frame_refl)
next
  case (Cons func funcs)
  show ?case
    using Cons.IH same_frame_add_issue same_frame_trans by (simp, blast)
qed

lemma same_frame_python_text_checks: "same_frame r (python_text_checks content r)"
proof -
  let ?a = "check_dangerous_funcs content dangerous_funcs r"
  let ?b = "check_command_injection content ?a"
  have "same_frame r ?a" by (rule same_frame_check_dangerous_funcs)
  moreover have "same_frame ?a ?b"
    by (simp add: check_command_injection_def same_frame_refl same_frame_add_issue)
  moreover have "same_frame ?b (check_hardcoded_credentials content ?b)"
    by (simp add: check_hardcoded_credentials_def same_frame_refl same_frame_add_issue)
  ultimately show ?thesis
    unfolding python_text_checks_def by (blast intro: same_frame_trans)
qed

lemma same_frame_check_node: "same_frame r (check_node node r)"
  by (induction node r rule: check_node.induct)
     (simp_all add: same_frame_refl same_frame_add_issue)

lemma same_frame_check_nodes: "same_frame r (check_nodes nodes r)"
proof (induction nodes arbitrary: r)
  case Nil
  show ?case by (simp add: same_frame_refl)
next
  case (Cons node nodes)
  show ?case
    using Cons.IH [of "check_node node r"] same_frame_check_node [of r node]
    by (simp, blast intro: same_frame_trans)
qed

lemma same_frame_check_ast: "same_frame r (check_ast ast_parse content r)"
  by (simp add: check_ast_def same_frame_refl same_frame_check_nodes split: sum.split)

lemma same_frame_check_sensitive_ops: "same_frame r (check_sensitive_ops content ops r)"
proof (induction ops arbitrary: r)
  case Nil
  show ?case by (simp add: same_frame_refl)
next
  case (Cons op ops)
  show ?case
    using Cons.IH same_frame_add_issue same_frame_trans by (simp, blast)
qed

lemma same_frame_sql_text_checks: "same_frame r (sql_text_checks content r)"
proof -
  let ?a = "check_sql_injection content r"
  let ?b = "check_dynamic_sql content ?a"
  have "same_frame r ?a"
    by (simp add: check_sql_injection_def same_frame_refl same_frame_add_issue)
  moreover have "same_frame ?a ?b"
    by (simp add: check_dynamic_sql_def same_frame_refl same_frame_add_issue)
  moreover have "same_frame ?b (check_sensitive_ops content sensitive_ops ?b)"
    by (rule same_frame_check_sensitive_ops)
  ultimately show ?thesis
    unfolding sql_text_checks_def by (blast intro: same_frame_trans)
qed

lemma same_frame_check_statements: "same_frame r (check_statements stmts r)"
proof (induction stmts arbitrary: r)
  case Nil
  show ?case by (simp add: same_frame_refl)
next
  case (Cons stmt stmts)
  show ?case
    using Cons.IH same_frame_add_issue same_frame_trans by (simp, blast)
qed

lemma same_frame_check_sqlparse: "same_frame r (check_sqlparse sqlparse_parse content r)"
  by (simp add: check_sqlparse_def same_frame_refl same_frame_check_statements split: sum.split)

lemma same_frame_python_checks:
  "same_frame new_report (check_ast ast_parse content (python_text_checks content new_report))"
  using same_frame_python_text_checks same_frame_check_ast by (blast intro: same_frame_trans)

lemma same_frame_sql_checks:
  "same_frame new_report
     (check_sqlparse sqlparse_parse content (sql_text_checks content new_report))"
  using same_frame_sql_text_checks same_frame_check_sqlparse by (blast intro: same_frame_trans)

lemma risk_level_update:
  "risk_level r = ''Low'' \<Longrightarrow>
   risk_level (update_risk_level r) =
     (if security_score r < 50 then ''High''
      else if security_score r < 80 then ''Medium'' else ''Low'')"
  by (simp add: update_risk_level_def Let_def)

lemma risk_level_python:
  "risk_level (analyze_python_security fs ast_parse filepath) =
     (if security_score (analyze_python_security fs ast_parse filepath) < 50 then ''High''
      else if security_score (analyze_python_security fs ast_parse filepath) < 80 then ''Medium''
      else ''Low'')"
proof (cases "fs filepath")
  case (Inl e)
  then show ?thesis
    by (simp add: analyze_python_security_def analysis_failed_fields new_report_def)
next
  case (Inr content)
  let ?r = "check_ast ast_parse content (python_text_checks content new_report)"
  have "risk_level ?r = ''Low''"
    using same_frame_python_checks [of ast_parse content]
    by (simp add: same_frame_def new_report_def)
  then show ?thesis
    using Inr by (simp add: analyze_python_security_def risk_level_update update_risk_level_fields)
qed

lemma risk_level_sql:
  "risk_level (analyze_sql_security fs sqlparse_parse filepath) =
     (if security_score (analyze_sql_security fs sqlparse_parse filepath) < 50 then ''High''
      else if security_score (analyze_sql_security fs sqlparse_parse filepath) < 80 then ''Medium''
      else ''Low'')"
proof (cases "fs filepath")
  case (Inl e)
  then show ?thesis
    by (simp add: analyze_sql_security_def analysis_failed_fields new_report_def)
next
  case (Inr content)
  let ?r = "check_sqlparse sqlparse_parse content (sql_text_checks content new_report)"
  have "risk_level ?r = ''Low''"
    using same_frame_sql_checks [of sqlparse_parse content]
    by (simp add: same_frame_def new_report_def)
  then show ?thesis
    using Inr by (simp add: analyze_sql_security_def risk_level_update update_risk_level_fields)
qed

lemma invariants_python:
  "vulnerability_count (analyze_python_security fs ast_parse filepath) =
     int (length (security_issues (analyze_python_security fs ast_parse filepath)))"
  "balanced (analyze_python_security fs ast_parse filepath)"
proof -
  let ?r = "analyze_python_security fs ast_parse filepath"
  show "vulnerability_count ?r = int (length (security_issues ?r))"
    by (cases "fs filepath")
       (simp_all add: analyze_python_security_def analysis_failed_fields
          update_risk_level_fields new_report_def)
  show "balanced ?r"
  proof (cases "fs filepath")
    case (Inl e)
    then show ?thesis
      using balanced_new_report
      by (simp add: analyze_python_security_def balanced_def analysis_failed_fields)
  next
    case (Inr content)
    have "balanced (check_ast ast_parse content (python_text_checks content new_report))"
      by (intro balanced_check_ast balanced_python_text_checks balanced_new_report)
    then show ?thesis
      using Inr by (simp add: analyze_python_security_def balanced_def update_risk_level_fields)
  qed
qed

lemma invariants_sql:
  "vulnerability_count (analyze_sql_security fs sqlparse_parse filepath) =
     int (length (security_issues (analyze_sql_security fs sqlparse_parse filepath)))"
  "balanced (analyze_sql_security fs sqlparse_parse filepath)"
proof -
  let ?r = "analyze_sql_security fs sqlparse_parse filepath"
  show "vulnerability_count ?r = int (length (security_issues ?r))"
    by (cases "fs filepath")
       (simp_all add: analyze_sql_security_def analysis_failed_fields
          update_risk_level_fields new_report_def)
  show "balanced ?r"
  proof (cases "fs filepath")
    case (Inl e)
    then show ?thesis
      using balanced_new_report
      by (simp add: analyze_sql_security_def balanced_def analysis_failed_fields)
  next
    case (Inr content)
    have "balanced (check_sqlparse sqlparse_parse content (sql_text_checks content new_report))"
      by (intro balanced_check_sqlparse balanced_sql_text_checks balanced_new_report)
    then show ?thesis
      using Inr by (simp add: analyze_sql_security_def balanced_def update_risk_level_fields)
  qed
qed

subsection \<open>Substrings and matching\<close>

lemma startswith_append: "startswith (p @ s) p"
  by (induction p) simp_all

lemma contains_append: "contains sub (pre @ sub @ post)"
proof (induction pre)
  case Nil
  show ?case
    by (cases "sub @ post") (use startswith_append [of sub post] in auto)
next
  case (Cons c pre)
  then show ?case by simp
qed

lemma fullmatch_Fail: "\<not> fullmatch i Fail w"
  by (induction w) simp_all

lemma fullmatch_Eps: "fullmatch i Eps w \<longleftrightarrow> w = []"
  by (cases w) (simp_all add: fullmatch_Fail)

lemma fullmatch_Alt: "fullmatch i (Alt r s) w \<longleftrightarrow> fullmatch i r w \<or> fullmatch i s w"
  by (induction w arbitrary: r s) simp_all

lemma fullmatch_Seq_nullable:
  "nullable r \<Longrightarrow> fullmatch i s v \<Longrightarrow> fullmatch i (Seq r s) v"
  by (cases v) (simp_all add: fullmatch_Alt)

lemma fullmatch_Seq:
  "fullmatch i r u \<Longrightarrow> fullmatch i s v \<Longrightarrow> fullmatch i (Seq r s) (u @ v)"
proof (induction u arbitrary: r)
  case Nil
  then show ?case by (simp add: fullmatch_Seq_nullable)
next
  case (Cons c u)
  then have "fullmatch i (Seq (deriv i c r) s) (u @ v)" by simp
  then show ?case by (simp add: fullmatch_Alt)
qed

lemma fullmatch_Star_step:
  "fullmatch i r u \<Longrightarrow> fullmatch i (Star r) v \<Longrightarrow> fullmatch i (Star r) (u @ v)"
  by (cases u) (simp_all add: fullmatch_Seq)

lemma fullmatch_Plus:
  "fullmatch i r u \<Longrightarrow> fullmatch i (Star r) v \<Longrightarrow> u \<noteq> [] \<Longrightarrow> fullmatch i (Plus r) (u @ v)"
  by (cases u) (simp_all add: fullmatch_Seq)

lemma fullmatch_Star_chars:
  "(\<And>c. c \<in> set w \<Longrightarrow> fullmatch i r [c]) \<Longrightarrow> fullmatch i (Star r) w"
proof (induction w)
  case Nil
  show ?case by simp
next
  case (Cons c w)
  have "fullmatch i (Star r) ([c] @ w)"
    by (rule fullmatch_Star_step) (simp_all add: Cons del: fullmatch.simps)
  then show ?case by simp
qed

lemma fullmatch_any: "fullmatch i (Star (NoneOf [])) w"
  by (rule fullmatch_Star_chars) simp

lemma re_search_part: "fullmatch i r m \<Longrightarrow> re_search i r (pre @ m @ post)"
  unfolding re_search_def
  by (intro fullmatch_Seq fullmatch_any)

lemma fullmatch_word: "fullmatch False (word w) w"
proof (induction w rule: word.induct)
  case (3 c d cs)
  have "fullmatch False (Lit c) [c]"
    by (simp add: same_char_def)
  then have "fullmatch False (Seq (Lit c) (word (d # cs))) ([c] @ (d # cs))"
    using 3 by (rule fullmatch_Seq)
  then show ?case by simp
qed (simp_all add: same_char_def)

lemma fullmatch_alts: "r \<in> set rs \<Longrightarrow> fullmatch i r w \<Longrightarrow> fullmatch i (alts rs) w"
  by (induction rs rule: alts.induct) (auto simp: fullmatch_Alt)

lemma credentials_match:
  assumes kw: "kw \<in> set [''password'', ''passwd'', ''secret'', ''key'']"
    and ws1: "set ws1 \<subseteq> set whitespace" and ws2: "set ws2 \<subseteq> set whitespace"
    and q1: "q1 = CHR 0x27 \<or> q1 = CHR 0x22" and q2: "q2 = CHR 0x27 \<or> q2 = CHR 0x22"
    and body: "body \<noteq> []" "CHR 0x27 \<notin> set body" "CHR 0x22 \<notin> set body"
  shows "re_search False credentials_pattern
           (pre @ kw @ ws1 @ ''='' @ ws2 @ [q1] @ body @ [q2] @ post)"
proof -
  have a: "fullmatch False
      (alts [word ''password'', word ''passwd'', word ''secret'', word ''key'']) kw"
    using kw fullmatch_word [of kw] by (intro fullmatch_alts [of "word kw"]) auto
  have s1: "fullmatch False (Star Space) ws1"
    using ws1 by (intro fullmatch_Star_chars) auto
  have s2: "fullmatch False (Star Space) ws2"
    using ws2 by (intro fullmatch_Star_chars) auto
  have e: "fullmatch False (Lit CHR ''='') ''=''"
    by (simp add: same_char_def)
  have o1: "fullmatch False (OneOf [CHR 0x27, CHR 0x22]) [q1]"
    using q1 by (auto simp: same_char_def)
  have o2: "fullmatch False (OneOf [CHR 0x27, CHR 0x22]) [q2]"
    using q2 by (auto simp: same_char_def)
  have "fullmatch False (Star (NoneOf [CHR 0x27, CHR 0x22])) (tl body)"
    using body by (intro fullmatch_Star_chars) (auto simp: same_char_def dest: list.set_sel(2))
  moreover have "fullmatch False (NoneOf [CHR 0x27, CHR 0x22]) [hd body]"
    using body by (cases body) (auto simp: same_char_def)
  ultimately have "fullmatch False (Plus (NoneOf [CHR 0x27, CHR 0x22])) ([hd body] @ tl body)"
    by (intro fullmatch_Plus) simp_all
  then have b: "fullmatch False (Plus (NoneOf [CHR 0x27, CHR 0x22])) body"
    using body by simp
  have "fullmatch False credentials_pattern
          (kw @ ws1 @ ''='' @ ws2 @ [q1] @ body @ [q2])"
    unfolding credentials_pattern_def
    by (intro fullmatch_Seq a s1 e s2 o1 b o2)
  from re_search_part [OF this, of pre post] show ?thesis by simp
qed

subsection \<open>The issues a check appends\<close>

lemma adds_refl: "adds Q r r"
  by (simp add: adds_def)

lemma adds_trans: "adds Q r r' \<Longrightarrow> adds Q r' r'' \<Longrightarrow> adds Q r r''"
  unfolding adds_def by (metis append.assoc list_all_append)

lemma adds_add_issue: "Q label \<Longrightarrow> adds Q r (add_issue label n r)"
  by (simp add: adds_def add_issue_def)

lemma adds_if_add_issue: "Q label \<Longrightarrow> adds Q r (if b then add_issue label n r else r)"
  by (simp add: adds_refl adds_add_issue)

lemma adds_check_dangerous_funcs:
  assumes "\<And>f. Q (''Dangerous function used: '' @ f)"
  shows "adds Q r (check_dangerous_funcs content funcs r)"
proof (induction funcs arbitrary: r)
  case Nil
  show ?case by (simp add: adds_refl)
next
  case (Cons func funcs)
  have "adds Q r (if contains func content
                  then add_issue (''Dangerous function used: '' @ func) 10 r else r)"
    by (rule adds_if_add_issue) (rule assms)
  then show ?case
    unfolding check_dangerous_funcs.simps by (rule adds_trans) (rule Cons.IH)
qed

lemma adds_python_text_checks:
  assumes "\<And>f. Q (''Dangerous function used: '' @ f)"
    and "Q ''Potential command injection vulnerability''"
    and "Q ''Hardcoded credentials detected''"
  shows "adds Q r (python_text_checks content r)"
proof -
  let ?a = "check_dangerous_funcs content dangerous_funcs r"
  let ?b = "check_command_injection content ?a"
  have "adds Q r ?a"
    by (rule adds_check_dangerous_funcs) (rule assms(1))
  moreover have "adds Q ?a ?b"
    unfolding check_command_injection_def by (rule adds_if_add_issue) (rule assms(2))
  moreover have "adds Q ?b (check_hardcoded_credentials content ?b)"
    unfolding check_hardcoded_credentials_def by (rule adds_if_add_issue) (rule assms(3))
  ultimately show ?thesis
    unfolding python_text_checks_def by (blast intro: adds_trans)
qed

lemma adds_check_node:
  assumes "\<And>ident rest lineno. node = Call (Name ident) rest lineno \<Longrightarrow>
             ident \<in> set dangerous_funcs \<Longrightarrow>
             Q (''Dangerous function call: '' @ ident @ '' at line '' @ str_nat lineno)"
  shows "adds Q r (check_node node r)"
  using assms
proof (induction node r rule: check_node.induct)
  case (1 ident rest lineno r)
  show ?case
  proof (cases "ident \<in> set dangerous_funcs")
    case True
    have "Q (''Dangerous function call: '' @ ident @ '' at line '' @ str_nat lineno)"
      by (rule 1) (simp_all add: True)
    then have "adds Q r (add_issue
        (''Dangerous function call: '' @ ident @ '' at line '' @ str_nat lineno) 10 r)"
      by (rule adds_add_issue)
    then show ?thesis
      unfolding check_node.simps using True by (simp only: if_True)
  next
    case False
    then show ?thesis
      unfolding check_node.simps by (simp only: if_False adds_refl)
  qed
qed (simp_all add: adds_refl)

lemma adds_check_nodes:
  assumes "\<And>ident rest lineno. Call (Name ident) rest lineno \<in> set nodes \<Longrightarrow>
             ident \<in> set dangerous_funcs \<Longrightarrow>
             Q (''Dangerous function call: '' @ ident @ '' at line '' @ str_nat lineno)"
  shows "adds Q r (check_nodes nodes r)"
  using assms
proof (induction nodes arbitrary: r)
  case Nil
  show ?case by (simp add: adds_refl)
next
  case (Cons node nodes)
  have "adds Q r (check_node node r)"
  proof (rule adds_check_node)
    fix ident rest lineno
    assume "node = Call (Name ident) rest lineno" and "ident \<in> set dangerous_funcs"
    then show "Q (''Dangerous function call: '' @ ident @ '' at line '' @ str_nat lineno)"
      using Cons.prems [of ident rest lineno] by simp
  qed
  moreover have "adds Q (check_node node r) (check_nodes nodes (check_node node r))"
  proof (rule Cons.IH)
    fix ident rest lineno
    assume "Call (Name ident) rest lineno \<in> set nodes" and "ident \<in> set dangerous_funcs"
    then show "Q (''Dangerous function call: '' @ ident @ '' at line '' @ str_nat lineno)"
      using Cons.prems [of ident rest lineno] by simp
  qed
  ultimately show ?case
    unfolding check_nodes.simps by (rule adds_trans)
qed

lemma count_adds:
  assumes "adds (\<lambda>l. l \<noteq> label) r r'"
  shows "count_list (security_issues r') label = count_list (security_issues r) label"
proof -
  from assms obtain new where new: "security_issues r' = security_issues r @ new"
    and "list_all (\<lambda>l. l \<noteq> label) new"
    unfolding adds_def by blast
  then have "label \<notin> set new" by (auto simp: list_all_iff)
  then have "count_list new label = 0" by (simp add: count_list_0_iff)
  with new show ?thesis by simp
qed

lemma adds_all:
  assumes "adds Q r r'" and "list_all Q (security_issues r)"
  shows "list_all Q (security_issues r')"
  using assms unfolding adds_def by auto

subsection \<open>Trees and statements\<close>

lemma walk_queue_dotfree:
  "list_all names_dotfree todo \<Longrightarrow> list_all names_dotfree (walk_queue todo)"
proof (induction todo rule: walk_queue.induct)
  case 1
  show ?case by simp
next
  case (2 node todo)
  have "list_all names_dotfree (iter_child_nodes node)"
    using 2(2) by (cases node) simp_all
  then show ?case
    using 2 by simp
qed

lemma walk_dotfree: "names_dotfree tree \<Longrightarrow> list_all names_dotfree (walk tree)"
  unfolding walk_def by (rule walk_queue_dotfree) simp

lemma dotfree_dangerous:
  "CHR ''.'' \<notin> set ident \<Longrightarrow> ident \<in> set dangerous_funcs \<Longrightarrow>
   ident = ''eval'' \<or> ident = ''exec''"
  by (auto simp: dangerous_funcs_def)

lemma check_nodes_filter:
  "check_nodes nodes r = check_nodes (filter dangerous_call nodes) r"
proof (induction nodes arbitrary: r)
  case Nil
  show ?case by simp
next
  case (Cons node nodes)
  have "\<not> dangerous_call node \<Longrightarrow> check_node node r = r"
    by (induction node r rule: check_node.induct) simp_all
  then show ?case
    using Cons by (cases "dangerous_call node") simp_all
qed

lemma check_ast_no_calls:
  assumes "\<And>tree. ast_parse content = Inr tree \<Longrightarrow> filter dangerous_call (walk tree) = []"
  shows "check_ast ast_parse content r = r"
proof (cases "ast_parse content")
  case (Inl e)
  then show ?thesis by (simp add: check_ast_def)
next
  case (Inr tree)
  then have "check_ast ast_parse content r = check_nodes (walk tree) r"
    by (simp add: check_ast_def)
  also have "\<dots> = check_nodes (filter dangerous_call (walk tree)) r"
    by (rule check_nodes_filter)
  also have "\<dots> = r"
    using assms [OF Inr] by simp
  finally show ?thesis .
qed

lemma check_statements_known:
  "\<forall>stmt \<in> set stmts. get_type stmt \<noteq> ''UNKNOWN'' \<Longrightarrow> check_statements stmts r = r"
  by (induction stmts arbitrary: r) simp_all

subsection \<open>The text checks on the examples\<close>

lemma password_example_text:
  "python_text_checks password_example new_report =
     add_issue ''Hardcoded credentials detected'' 20 new_report"
  by code_simp

lemma sql_example_text:
  "sql_text_checks sql_example new_report =
     add_issue ''Potential SQL injection vulnerability'' 30 new_report"
  by code_simp

subsection \<open>Scores below zero\<close>

lemma negative_score_python:
  "security_score (analyze_python_security (\<lambda>p. Inr noisy_python) (\<lambda>s. Inr two_calls) ''upload.py'') = - 5"
  by code_simp

lemma negative_score_sql:
  "security_score (analyze_sql_security (\<lambda>p. Inr noisy_sql)
      (\<lambda>s. Inr (replicate 3 (Statement ''UNKNOWN''))) ''upload.sql'') = - 10"
  by code_simp

section \<open>The claims\<close>

text \<open>
  C1. For every file and both supported file types, the report an analyser returns has
  \<^verbatim>\<open>vulnerability_count\<close> equal to the number of issues and \<^verbatim>\<open>security_score\<close> equal to
  100 less the penalties of the issues listed; \<^verbatim>\<open>generate_security_report\<close> passes that
  report on. The score is not clamped: there are inputs of either type whose score is
  negative.
\<close>

theorem count_and_score:
  "vulnerability_count (analyze_python_security fs ast_parse filepath) =
     int (length (security_issues (analyze_python_security fs ast_parse filepath)))
   \<and> security_score (analyze_python_security fs ast_parse filepath) =
     100 - sum_list (map penalty (security_issues (analyze_python_security fs ast_parse filepath)))
   \<and> vulnerability_count (analyze_sql_security fs sqlparse_parse filepath) =
     int (length (security_issues (analyze_sql_security fs sqlparse_parse filepath)))
   \<and> security_score (analyze_sql_security fs sqlparse_parse filepath) =
     100 - sum_list (map penalty (security_issues (analyze_sql_security fs sqlparse_parse filepath)))
   \<and> generate_security_report fs ast_parse sqlparse_parse filepath ''py'' =
     report_dict (analyze_python_security fs ast_parse filepath)
   \<and> generate_security_report fs ast_parse sqlparse_parse filepath ''sql'' =
     report_dict (analyze_sql_security fs sqlparse_parse filepath)
   \<and> (\<exists>fs' ast_parse' filepath'.
         security_score (analyze_python_security fs' ast_parse' filepath') < 0)
   \<and> (\<exists>fs' sqlparse_parse' filepath'.
         security_score (analyze_sql_security fs' sqlparse_parse' filepath') < 0)"
proof -
  have "\<exists>fs' ast_parse' filepath'.
          security_score (analyze_python_security fs' ast_parse' filepath') < 0"
    by (rule exI [of _ "\<lambda>p. Inr noisy_python"], rule exI [of _ "\<lambda>s. Inr two_calls"],
        rule exI [of _ "''upload.py''"]) (simp add: negative_score_python)
  moreover have "\<exists>fs' sqlparse_parse' filepath'.
          security_score (analyze_sql_security fs' sqlparse_parse' filepath') < 0"
    by (rule exI [of _ "\<lambda>p. Inr noisy_sql"],
        rule exI [of _ "\<lambda>s. Inr (replicate 3 (Statement ''UNKNOWN''))"],
        rule exI [of _ "''upload.sql''"]) (simp add: negative_score_sql)
  moreover have "generate_security_report fs ast_parse sqlparse_parse filepath ''py'' =
     report_dict (analyze_python_security fs ast_parse filepath)"
    by (simp add: generate_security_report_def)
  moreover have "generate_security_report fs ast_parse sqlparse_parse filepath ''sql'' =
     report_dict (analyze_sql_security fs sqlparse_parse filepath)"
    by (simp add: generate_security_report_def)
  ultimately show ?thesis
    using invariants_python [of fs ast_parse filepath] invariants_sql [of fs sqlparse_parse filepath]
    unfolding balanced_def by blast
qed

theorem count_and_score_witness:
  "vulnerability_count (analyze_python_security (\<lambda>p. Inr noisy_python) (\<lambda>s. Inr two_calls) ''upload.py'') = 9
   \<and> security_score (analyze_python_security (\<lambda>p. Inr noisy_python) (\<lambda>s. Inr two_calls) ''upload.py'') = - 5
   \<and> sum_list (map penalty (security_issues
        (analyze_python_security (\<lambda>p. Inr noisy_python) (\<lambda>s. Inr two_calls) ''upload.py''))) = 105"
proof -
  have "length (security_issues
      (analyze_python_security (\<lambda>p. Inr noisy_python) (\<lambda>s. Inr two_calls) ''upload.py'')) = 9"
    by code_simp
  then show ?thesis
    using count_and_score [of "\<lambda>p. Inr noisy_python" "\<lambda>s. Inr two_calls" "''upload.py''"]
      negative_score_python
    by simp
qed

text \<open>
  C2. The risk level of a report is decided by its final score alone, with the thresholds
  50 and 80: Low exactly from 80 up, Medium exactly from 50 up to 79, High exactly below
  50. This holds for both analysers, also when the file could not be read.
\<close>

theorem risk_level_thresholds:
  "(risk_level (analyze_python_security fs ast_parse filepath) = ''Low''
      \<longleftrightarrow> 80 \<le> security_score (analyze_python_security fs ast_parse filepath))
   \<and> (risk_level (analyze_python_security fs ast_parse filepath) = ''Medium''
      \<longleftrightarrow> 50 \<le> security_score (analyze_python_security fs ast_parse filepath)
          \<and> security_score (analyze_python_security fs ast_parse filepath) < 80)
   \<and> (risk_level (analyze_python_security fs ast_parse filepath) = ''High''
      \<longleftrightarrow> security_score (analyze_python_security fs ast_parse filepath) < 50)
   \<and> (risk_level (analyze_sql_security fs sqlparse_parse filepath) = ''Low''
      \<longleftrightarrow> 80 \<le> security_score (analyze_sql_security fs sqlparse_parse filepath))
   \<and> (risk_level (analyze_sql_security fs sqlparse_parse filepath) = ''Medium''
      \<longleftrightarrow> 50 \<le> security_score (analyze_sql_security fs sqlparse_parse filepath)
          \<and> security_score (analyze_sql_security fs sqlparse_parse filepath) < 80)
   \<and> (risk_level (analyze_sql_security fs sqlparse_parse filepath) = ''High''
      \<longleftrightarrow> security_score (analyze_sql_security fs sqlparse_parse filepath) < 50)"
proof -
  let ?p = "analyze_python_security fs ast_parse filepath"
  let ?q = "analyze_sql_security fs sqlparse_parse filepath"
  have p: "(risk_level ?p = ''Low'' \<longleftrightarrow> 80 \<le> security_score ?p)
      \<and> (risk_level ?p = ''Medium'' \<longleftrightarrow> 50 \<le> security_score ?p \<and> security_score ?p < 80)
      \<and> (risk_level ?p = ''High'' \<longleftrightarrow> security_score ?p < 50)"
    by (subst (1 2 3) risk_level_python) simp
  have q: "(risk_level ?q = ''Low'' \<longleftrightarrow> 80 \<le> security_score ?q)
      \<and> (risk_level ?q = ''Medium'' \<longleftrightarrow> 50 \<le> security_score ?q \<and> security_score ?q < 80)
      \<and> (risk_level ?q = ''High'' \<longleftrightarrow> security_score ?q < 50)"
    by (subst (1 2 3) risk_level_sql) simp
  from p q show ?thesis by blast
qed

theorem risk_level_thresholds_witness:
  "security_score (analyze_python_security (\<lambda>p. Inr five_funcs)
      (\<lambda>s. Inl (Exception ''invalid syntax'')) ''upload.py'') = 50
   \<and> risk_level (analyze_python_security (\<lambda>p. Inr five_funcs)
      (\<lambda>s. Inl (Exception ''invalid syntax'')) ''upload.py'') = ''Medium''
   \<and> security_score (analyze_sql_security (\<lambda>p. Inr ''EXECUTE IMMEDIATE q'')
      (\<lambda>s. Inr [Statement ''UNKNOWN'']) ''upload.sql'') = 70
   \<and> risk_level (analyze_sql_security (\<lambda>p. Inr ''EXECUTE IMMEDIATE q'')
      (\<lambda>s. Inr [Statement ''UNKNOWN'']) ''upload.sql'') = ''Medium''"
proof -
  have a: "security_score (analyze_python_security (\<lambda>p. Inr five_funcs)
      (\<lambda>s. Inl (Exception ''invalid syntax'')) ''upload.py'') = 50"
    by code_simp
  have b: "security_score (analyze_sql_security (\<lambda>p. Inr ''EXECUTE IMMEDIATE q'')
      (\<lambda>s. Inr [Statement ''UNKNOWN'']) ''upload.sql'') = 70"
    by code_simp
  show ?thesis
    using a b
      risk_level_thresholds [where fs = "\<lambda>p. Inr five_funcs"
        and ast_parse = "\<lambda>s. Inl (Exception ''invalid syntax'')" and filepath = "''upload.py''"]
      risk_level_thresholds [where fs = "\<lambda>p. Inr ''EXECUTE IMMEDIATE q''"
        and sqlparse_parse = "\<lambda>s. Inr [Statement ''UNKNOWN'']" and filepath = "''upload.sql''"]
    by simp
qed

text \<open>
  C3, as stated, fails: a file whose third line holds \<^verbatim>\<open>eval(x)\<close> in a comment, and
  nothing else, parses into a module without statements. The substring check fires, the
  walk over the tree finds no call: one issue, score 90.
\<close>

theorem eval_text_without_call_counterexample:
  "comment_example = [CHR 0x0A, CHR 0x0A] @ ''# '' @ ''eval(x)'' @ [CHR 0x0A]
   \<and> analyze_python_security (\<lambda>path. Inr comment_example) (\<lambda>source. Inr (Node []))
       ''upload.py'' =
     \<lparr> security_issues = [''Dangerous function used: eval''],
       vulnerability_count = 1, risk_level = ''Low'', security_score = 90, error = None \<rparr>"
  by code_simp

text \<open>
  C3, amended. A Python file that holds \<^verbatim>\<open>eval(x)\<close>, that parses into a tree whose only
  call of a dangerous function by its bare name is a call of \<^verbatim>\<open>eval\<close>, and on which no
  other check on the text fires, gets exactly two issues for the one occurrence: that of
  the substring check, and that of the walk over the tree with the line the parser gave
  the call (line 3 for the call on the third line). The score is 80 and the risk level
  Low.
\<close>

theorem eval_call_reported_twice:
  assumes "fs filepath = Inr content"
    and "content = before @ ''eval(x)'' @ after"
    and "ast_parse content = Inr tree"
    and "filter dangerous_call (walk tree) = [Call (Name ''eval'') args lineno]"
    and "\<not> contains ''exec'' content" and "\<not> contains ''pickle.loads'' content"
    and "\<not> contains ''os.system'' content" and "\<not> contains ''subprocess.call'' content"
    and "\<not> contains ''system(input'' content" and "\<not> contains ''system(argv'' content"
    and "\<not> contains ''system(getenv'' content"
    and "\<not> re_search False credentials_pattern content"
  shows "analyze_python_security fs ast_parse filepath =
           \<lparr> security_issues = [''Dangerous function used: eval'',
                                 ''Dangerous function call: eval at line '' @ str_nat lineno],
             vulnerability_count = 2, risk_level = ''Low'', security_score = 80,
             error = None \<rparr>"
proof -
  let ?call = "''Dangerous function call: eval at line '' @ str_nat lineno"
  have "content = before @ ''eval'' @ (''(x)'' @ after)"
    using assms(2) by simp
  then have "contains ''eval'' content"
    by (simp only: contains_append)
  then have t: "python_text_checks content new_report =
      add_issue ''Dangerous function used: eval'' 10 new_report"
    using assms(5-12)
    by (simp add: python_text_checks_def dangerous_funcs_def check_command_injection_def
        check_hardcoded_credentials_def)
  have "check_nodes (filter dangerous_call (walk tree)) r = add_issue ?call 10 r" for r
    using assms(4) by (simp add: dangerous_funcs_def)
  then have "check_ast ast_parse content r = add_issue ?call 10 r" for r
    using assms(3) check_nodes_filter [of "walk tree" r] by (simp add: check_ast_def)
  then have "analyze_python_security fs ast_parse filepath =
      update_risk_level (add_issue ?call 10
        (add_issue ''Dangerous function used: eval'' 10 new_report))"
    using assms(1) t by (simp add: analyze_python_security_def)
  also have "\<dots> = \<lparr> security_issues = [''Dangerous function used: eval'', ?call],
             vulnerability_count = 2, risk_level = ''Low'', security_score = 80,
             error = None \<rparr>"
    by (simp add: add_issue_def new_report_def update_risk_level_def)
  finally show ?thesis .
qed

theorem eval_call_reported_twice_witness:
  "analyze_python_security (\<lambda>path. Inr eval_example) (\<lambda>source. Inr eval_tree) ''upload.py'' =
     \<lparr> security_issues = [''Dangerous function used: eval'',
                           ''Dangerous function call: eval at line 3''],
       vulnerability_count = 2, risk_level = ''Low'', security_score = 80,
       error = None \<rparr>"
proof -
  have shape: "eval_example = [CHR 0x0A, CHR 0x0A] @ ''eval(x)'' @ [CHR 0x0A]"
    by (simp add: eval_example_def)
  have calls: "filter dangerous_call (walk eval_tree) = [Call (Name ''eval'') [Name ''x''] 3]"
    by code_simp
  have clean: "\<not> contains ''exec'' eval_example" "\<not> contains ''pickle.loads'' eval_example"
    "\<not> contains ''os.system'' eval_example" "\<not> contains ''subprocess.call'' eval_example"
    "\<not> contains ''system(input'' eval_example" "\<not> contains ''system(argv'' eval_example"
    "\<not> contains ''system(getenv'' eval_example"
    "\<not> re_search False credentials_pattern eval_example"
    by code_simp+
  have line: "str_nat 3 = ''3''"
    by (simp add: str_nat.simps digit_char_def)
  have "analyze_python_security (\<lambda>path. Inr eval_example) (\<lambda>source. Inr eval_tree) ''upload.py'' =
     \<lparr> security_issues = [''Dangerous function used: eval'',
                           ''Dangerous function call: eval at line '' @ str_nat 3],
       vulnerability_count = 2, risk_level = ''Low'', security_score = 80,
       error = None \<rparr>"
    by (rule eval_call_reported_twice [where content = eval_example and tree = eval_tree
          and before = "[CHR 0x0A, CHR 0x0A]" and after = "[CHR 0x0A]",
          OF _ shape _ calls clean]) simp_all
  then show ?thesis
    by (simp add: line)
qed

text \<open>
  C4, as stated, fails: the pattern is matched without \<^verbatim>\<open>re.I\<close>, so the assignment
  \<^verbatim>\<open>PASSWORD = "abc123"\<close> is not reported and the score stays 100.
\<close>

theorem credentials_finding_counterexample:
  "\<not> re_search False credentials_pattern upper_password_example
   \<and> ''Hardcoded credentials detected'' \<notin> set (security_issues
        (analyze_python_security (\<lambda>path. Inr upper_password_example)
           (\<lambda>source. Inr upper_password_tree) ''upload.py''))
   \<and> security_score (analyze_python_security (\<lambda>path. Inr upper_password_example)
           (\<lambda>source. Inr upper_password_tree) ''upload.py'') = 100"
  by code_simp

text \<open>
  C4, amended. The check fires on every text that holds one of the words
  \<^verbatim>\<open>password\<close>, \<^verbatim>\<open>passwd\<close>, \<^verbatim>\<open>secret\<close>, \<^verbatim>\<open>key\<close> in lower case, then any
  whitespace, \<^verbatim>\<open>=\<close>, any whitespace, a quote, one or more characters that are not
  quotes, and a quote. It appends one issue and takes 20 off the score, and the report of
  the file lists that issue once. For the file \<^verbatim>\<open>password = "abc123"\<close>, whose tree holds
  no call, the report is that one issue, score 80, risk level Low.
\<close>

theorem credentials_finding:
  assumes "fs filepath = Inr content"
    and "content = pre @ kw @ ws1 @ ''='' @ ws2 @ [q1] @ body @ [q2] @ post"
    and "kw \<in> set [''password'', ''passwd'', ''secret'', ''key'']"
    and "set ws1 \<subseteq> set whitespace" and "set ws2 \<subseteq> set whitespace"
    and "q1 = CHR 0x27 \<or> q1 = CHR 0x22" and "q2 = CHR 0x27 \<or> q2 = CHR 0x22"
    and "body \<noteq> []" and "CHR 0x27 \<notin> set body" and "CHR 0x22 \<notin> set body"
  shows "check_hardcoded_credentials content r = add_issue ''Hardcoded credentials detected'' 20 r
       \<and> count_list (security_issues (analyze_python_security fs ast_parse filepath))
           ''Hardcoded credentials detected'' = 1
       \<and> (fs' filepath' = Inr password_example \<longrightarrow>
            (\<forall>tree. ast_parse' password_example = Inr tree \<longrightarrow>
                    filter dangerous_call (walk tree) = []) \<longrightarrow>
            analyze_python_security fs' ast_parse' filepath' =
              \<lparr> security_issues = [''Hardcoded credentials detected''],
                vulnerability_count = 1, risk_level = ''Low'', security_score = 80,
                error = None \<rparr>)"
proof -
  let ?label = "''Hardcoded credentials detected''"
  have found: "re_search False credentials_pattern content"
    unfolding assms(2) by (rule credentials_match) (rule assms)+
  then have a: "check_hardcoded_credentials content r = add_issue ?label 20 r" for r
    by (simp add: check_hardcoded_credentials_def)
  let ?f = "check_dangerous_funcs content dangerous_funcs new_report"
  let ?c = "check_command_injection content ?f"
  let ?t = "python_text_checks content new_report"
  have "adds (\<lambda>l. l \<noteq> ?label) new_report ?f"
    by (rule adds_check_dangerous_funcs) simp
  moreover have "adds (\<lambda>l. l \<noteq> ?label) ?f ?c"
    unfolding check_command_injection_def by (rule adds_if_add_issue) simp
  ultimately have "adds (\<lambda>l. l \<noteq> ?label) new_report ?c"
    by (rule adds_trans)
  then have "count_list (security_issues ?c) ?label = 0"
    using count_adds [of ?label new_report ?c] by (simp add: new_report_def)
  then have one: "count_list (security_issues ?t) ?label = 1"
    by (simp add: python_text_checks_def a add_issue_def)
  have "adds (\<lambda>l. l \<noteq> ?label) ?t (check_ast ast_parse content ?t)"
  proof (cases "ast_parse content")
    case (Inl e)
    then show ?thesis by (simp add: check_ast_def adds_refl)
  next
    case (Inr tree)
    have "adds (\<lambda>l. l \<noteq> ?label) ?t (check_nodes (walk tree) ?t)"
      by (rule adds_check_nodes) simp
    then show ?thesis using Inr by (simp add: check_ast_def)
  qed
  then have "count_list (security_issues (check_ast ast_parse content ?t)) ?label = 1"
    using one by (simp add: count_adds)
  then have b: "count_list (security_issues (analyze_python_security fs ast_parse filepath))
      ?label = 1"
    using assms(1) by (simp add: analyze_python_security_def update_risk_level_fields)
  have c: "analyze_python_security fs' ast_parse' filepath' =
              \<lparr> security_issues = [?label],
                vulnerability_count = 1, risk_level = ''Low'', security_score = 80,
                error = None \<rparr>"
    if read: "fs' filepath' = Inr password_example"
      and calls: "\<forall>tree. ast_parse' password_example = Inr tree \<longrightarrow>
                    filter dangerous_call (walk tree) = []"
  proof -
    have "check_ast ast_parse' password_example r = r" for r
      by (rule check_ast_no_calls) (use calls in blast)
    then have "analyze_python_security fs' ast_parse' filepath' =
        update_risk_level (add_issue ?label 20 new_report)"
      using read by (simp add: analyze_python_security_def password_example_text)
    also have "\<dots> = \<lparr> security_issues = [?label],
                vulnerability_count = 1, risk_level = ''Low'', security_score = 80,
                error = None \<rparr>"
      by (simp add: add_issue_def new_report_def update_risk_level_def)
    finally show ?thesis .
  qed
  from a b c show ?thesis by blast
qed

theorem credentials_finding_witness:
  "count_list (security_issues (analyze_python_security (\<lambda>path. Inr password_example)
       (\<lambda>source. Inr password_tree) ''upload.py'')) ''Hardcoded credentials detected'' = 1
   \<and> analyze_python_security (\<lambda>path. Inr password_example)
       (\<lambda>source. Inr password_tree) ''upload.py'' =
     \<lparr> security_issues = [''Hardcoded credentials detected''],
       vulnerability_count = 1, risk_level = ''Low'', security_score = 80, error = None \<rparr>"
proof -
  have shape: "password_example =
      [] @ ''password'' @ '' '' @ ''='' @ '' '' @ [CHR 0x22] @ ''abc123'' @ [CHR 0x22] @ []"
    by (simp add: password_example_def)
  have calls: "filter dangerous_call (walk password_tree) = []"
    by code_simp
  have spaces: "set '' '' \<subseteq> set whitespace"
    by (simp add: whitespace_def)
  have "count_list (security_issues (analyze_python_security (\<lambda>path. Inr password_example)
         (\<lambda>source. Inr password_tree) ''upload.py'')) ''Hardcoded credentials detected'' = 1
     \<and> ((\<lambda>path. Inr password_example) ''upload.py'' = Inr password_example \<longrightarrow>
            (\<forall>tree. (\<lambda>source. Inr password_tree) password_example = Inr tree \<longrightarrow>
                    filter dangerous_call (walk tree) = []) \<longrightarrow>
            analyze_python_security (\<lambda>path. Inr password_example)
              (\<lambda>source. Inr password_tree) ''upload.py'' =
              \<lparr> security_issues = [''Hardcoded credentials detected''],
                vulnerability_count = 1, risk_level = ''Low'', security_score = 80,
                error = None \<rparr>)"
    using credentials_finding [where fs = "\<lambda>path. Inr password_example"
        and filepath = "''upload.py''" and content = password_example
        and pre = "[]" and kw = "''password''" and ?ws1.0 = "'' ''" and ?ws2.0 = "'' ''"
        and ?q1.0 = "CHR 0x22" and body = "''abc123''" and ?q2.0 = "CHR 0x22" and post = "[]"
        and ast_parse = "\<lambda>source. Inr password_tree"
        and fs' = "\<lambda>path. Inr password_example" and filepath' = "''upload.py''"
        and ast_parse' = "\<lambda>source. Inr password_tree", OF _ shape _ spaces spaces]
    by simp
  then show ?thesis
    using calls by simp
qed




text \<open>
  C6. When \<^verbatim>\<open>ast.parse\<close> raises, the report is the one the checks on the text alone
  give, the same as for a tree without any call: no issue of the walk over the tree, no
  \<^verbatim>\<open>error\<close> key.
\<close>

theorem parse_failure_swallowed:
  assumes "fs filepath = Inr content" and "ast_parse content = Inl e"
  shows "analyze_python_security fs ast_parse filepath =
           update_risk_level (python_text_checks content new_report)
       \<and> analyze_python_security fs ast_parse filepath =
           analyze_python_security fs (\<lambda>source. Inr (Node [])) filepath
       \<and> error (analyze_python_security fs ast_parse filepath) = None
       \<and> (\<forall>label \<in> set (security_issues (analyze_python_security fs ast_parse filepath)).
            \<not> startswith label ''Dangerous function call: '')"
proof -
  let ?t = "python_text_checks content new_report"
  have a: "analyze_python_security fs ast_parse filepath = update_risk_level ?t"
    using assms by (simp add: analyze_python_security_def check_ast_def)
  have b: "analyze_python_security fs (\<lambda>source. Inr (Node [])) filepath = update_risk_level ?t"
    using assms by (simp add: analyze_python_security_def check_ast_def walk_def)
  have "error ?t = None"
    using same_frame_python_text_checks [of new_report content]
    by (simp add: same_frame_def new_report_def)
  then have c: "error (update_risk_level ?t) = None"
    by (simp add: update_risk_level_fields)
  have "adds (\<lambda>l. \<not> startswith l ''Dangerous function call: '') new_report ?t"
    by (rule adds_python_text_checks) simp_all
  then have "list_all (\<lambda>l. \<not> startswith l ''Dangerous function call: '') (security_issues ?t)"
    by (rule adds_all) (simp add: new_report_def)
  then have d: "\<forall>label \<in> set (security_issues (update_risk_level ?t)).
      \<not> startswith label ''Dangerous function call: ''"
    by (simp add: update_risk_level_fields list_all_iff)
  from a b c d show ?thesis by simp
qed

theorem parse_failure_swallowed_witness:
  "analyze_python_security (\<lambda>path. Inr unparseable_example)
      (\<lambda>source. Inl (Exception ''unexpected EOF while parsing'')) ''upload.py'' =
     \<lparr> security_issues = [''Dangerous function used: eval''],
       vulnerability_count = 1, risk_level = ''Low'', security_score = 90, error = None \<rparr>"
proof -
  have "update_risk_level (python_text_checks unparseable_example new_report) =
     \<lparr> security_issues = [''Dangerous function used: eval''],
       vulnerability_count = 1, risk_level = ''Low'', security_score = 90, error = None \<rparr>"
    by code_simp
  then show ?thesis
    using parse_failure_swallowed [where fs = "\<lambda>path. Inr unparseable_example"
        and filepath = "''upload.py''" and content = unparseable_example
        and ast_parse = "\<lambda>source. Inl (Exception ''unexpected EOF while parsing'')"
        and e = "Exception ''unexpected EOF while parsing''"]
    by simp
qed

text \<open>
  C7. For a file type other than \<^verbatim>\<open>py\<close> and \<^verbatim>\<open>sql\<close>, \<^verbatim>\<open>generate_security_report\<close>
  returns the dictionary whose only key is \<^verbatim>\<open>error\<close>, with the text
  \<^verbatim>\<open>Unsupported file type for security analysis\<close>; no file is read.
\<close>

theorem unsupported_filetype:
  assumes "filetype \<noteq> ''py''" and "filetype \<noteq> ''sql''"
  shows "generate_security_report fs ast_parse sqlparse_parse filepath filetype =
           [(''error'', PyStr ''Unsupported file type for security analysis'')]"
  using assms by (simp add: generate_security_report_def)

theorem unsupported_filetype_witness:
  "''txt'' \<noteq> ''py'' \<and> ''txt'' \<noteq> ''sql''
   \<and> generate_security_report (\<lambda>p. Inr ''eval(x)'') (\<lambda>s. Inl (Exception ''invalid syntax''))
        (\<lambda>s. Inr []) ''notes.txt'' ''txt'' =
      [(''error'', PyStr ''Unsupported file type for security analysis'')]"
proof -
  have a: "''txt'' \<noteq> ''py''" and b: "''txt'' \<noteq> ''sql''" by simp_all
  from unsupported_filetype [OF a b] a b show ?thesis by blast
qed

text \<open>
  C8. For the SQL text \<^verbatim>\<open>SELECT * FROM users WHERE id = ' + input() \<close>, which
  \<^verbatim>\<open>sqlparse\<close> splits into statements of a known type (or fails on), the report is the
  one issue \<^verbatim>\<open>Potential SQL injection vulnerability\<close>, score 70, risk level Medium.
\<close>

theorem sql_injection_example:
  assumes "fs filepath = Inr sql_example"
    and "\<And>stmts. sqlparse_parse sql_example = Inr stmts \<Longrightarrow>
           \<forall>stmt \<in> set stmts. get_type stmt \<noteq> ''UNKNOWN''"
  shows "analyze_sql_security fs sqlparse_parse filepath =
           \<lparr> security_issues = [''Potential SQL injection vulnerability''],
             vulnerability_count = 1, risk_level = ''Medium'', security_score = 70,
             error = None \<rparr>"
proof -
  have "check_sqlparse sqlparse_parse sql_example r = r" for r
    using assms(2) by (cases "sqlparse_parse sql_example")
      (simp_all add: check_sqlparse_def check_statements_known)
  then have "analyze_sql_security fs sqlparse_parse filepath =
      update_risk_level (add_issue ''Potential SQL injection vulnerability'' 30 new_report)"
    using assms(1) by (simp add: analyze_sql_security_def sql_example_text)
  also have "\<dots> = \<lparr> security_issues = [''Potential SQL injection vulnerability''],
             vulnerability_count = 1, risk_level = ''Medium'', security_score = 70,
             error = None \<rparr>"
    by (simp add: add_issue_def new_report_def update_risk_level_def)
  finally show ?thesis .
qed

theorem sql_injection_example_witness:
  "analyze_sql_security (\<lambda>path. Inr sql_example) (\<lambda>source. Inr [Statement ''SELECT''])
      ''upload.sql'' =
     \<lparr> security_issues = [''Potential SQL injection vulnerability''],
       vulnerability_count = 1, risk_level = ''Medium'', security_score = 70, error = None \<rparr>"
  using sql_injection_example [where fs = "\<lambda>path. Inr sql_example" and filepath = "''upload.sql''"
      and sqlparse_parse = "\<lambda>source. Inr [Statement ''SELECT'']"]
  by simp

text \<open>
  C10. When the names in the trees of the parser hold no dot, every issue of the walk
  over the tree names \<^verbatim>\<open>eval\<close> or \<^verbatim>\<open>exec\<close>: no report lists
  \<^verbatim>\<open>Dangerous function call:\<close> for \<^verbatim>\<open>pickle.loads\<close>, \<^verbatim>\<open>os.system\<close> or
  \<^verbatim>\<open>subprocess.call\<close>.
\<close>

theorem structural_findings_eval_exec_only:
  assumes "\<And>source tree. ast_parse source = Inr tree \<Longrightarrow> names_dotfree tree"
  shows "\<forall>label \<in> set (security_issues (analyze_python_security fs ast_parse filepath)).
           (startswith label ''Dangerous function call: '' \<longrightarrow>
              (\<exists>lineno. label = ''Dangerous function call: eval at line '' @ str_nat lineno
                      \<or> label = ''Dangerous function call: exec at line '' @ str_nat lineno))
         \<and> \<not> startswith label ''Dangerous function call: pickle.loads''
         \<and> \<not> startswith label ''Dangerous function call: os.system''
         \<and> \<not> startswith label ''Dangerous function call: subprocess.call''"
proof (cases "fs filepath")
  case (Inl e)
  then show ?thesis
    by (simp add: analyze_python_security_def analysis_failed_fields new_report_def)
next
  case (Inr content)
  let ?Q = "\<lambda>label.
       (startswith label ''Dangerous function call: '' \<longrightarrow>
          (\<exists>lineno. label = ''Dangerous function call: eval at line '' @ str_nat lineno
                  \<or> label = ''Dangerous function call: exec at line '' @ str_nat lineno))
     \<and> \<not> startswith label ''Dangerous function call: pickle.loads''
     \<and> \<not> startswith label ''Dangerous function call: os.system''
     \<and> \<not> startswith label ''Dangerous function call: subprocess.call''"
  let ?t = "python_text_checks content new_report"
  have from_text: "adds ?Q new_report ?t"
    by (rule adds_python_text_checks) simp_all
  have from_tree: "adds ?Q ?t (check_ast ast_parse content ?t)"
  proof (cases "ast_parse content")
    case (Inl e)
    then show ?thesis by (simp add: check_ast_def adds_refl)
  next
    case (Inr tree)
    then have "names_dotfree tree" by (rule assms)
    then have free: "list_all names_dotfree (walk tree)" by (rule walk_dotfree)
    have "adds ?Q ?t (check_nodes (walk tree) ?t)"
    proof (rule adds_check_nodes)
      fix ident rest lineno
      assume member: "Call (Name ident) rest lineno \<in> set (walk tree)"
        and dangerous: "ident \<in> set dangerous_funcs"
      from free member have "names_dotfree (Call (Name ident) rest lineno)"
        unfolding list_all_iff by (rule bspec)
      then have "CHR ''.'' \<notin> set ident" by simp
      then have "ident = ''eval'' \<or> ident = ''exec''"
        using dangerous by (rule dotfree_dangerous)
      then show "?Q (''Dangerous function call: '' @ ident @ '' at line '' @ str_nat lineno)"
        by auto
    qed
    then show ?thesis using Inr by (simp add: check_ast_def)
  qed
  from from_text from_tree have "adds ?Q new_report (check_ast ast_parse content ?t)"
    by (rule adds_trans)
  then have "list_all ?Q (security_issues (check_ast ast_parse content ?t))"
    by (rule adds_all) (simp add: new_report_def)
  then show ?thesis
    using Inr
    by (simp only: analyze_python_security_def sum.case update_risk_level_fields list_all_iff)
qed

theorem structural_findings_eval_exec_only_witness:
  "names_dotfree os_system_tree
   \<and> security_issues (analyze_python_security (\<lambda>path. Inr os_system_example)
        (\<lambda>source. Inr os_system_tree) ''upload.py'') =
       [''Dangerous function used: exec'', ''Dangerous function used: os.system'',
        ''Dangerous function call: exec at line 3'']
   \<and> list_all (\<lambda>label. \<not> startswith label ''Dangerous function call: os.system'')
        (security_issues (analyze_python_security (\<lambda>path. Inr os_system_example)
           (\<lambda>source. Inr os_system_tree) ''upload.py''))"
proof -
  have free: "names_dotfree os_system_tree"
    by code_simp
  have issues: "security_issues (analyze_python_security (\<lambda>path. Inr os_system_example)
        (\<lambda>source. Inr os_system_tree) ''upload.py'') =
       [''Dangerous function used: exec'', ''Dangerous function used: os.system'',
        ''Dangerous function call: exec at line 3'']"
    by code_simp
  have "list_all (\<lambda>label. \<not> startswith label ''Dangerous function call: os.system'')
        (security_issues (analyze_python_security (\<lambda>path. Inr os_system_example)
           (\<lambda>source. Inr os_system_tree) ''upload.py''))"
    unfolding list_all_iff
    using structural_findings_eval_exec_only [where ast_parse = "\<lambda>source. Inr os_system_tree"
        and fs = "\<lambda>path. Inr os_system_example" and filepath = "''upload.py''"] free
    by blast
  with free issues show ?thesis by blast
qed

end
